theory Spec2Isabelle
  imports Complex_Main "HOL-Library.Word" "HOL-Library.Sublist"
begin

section \<open>JavaScript values and strings\<close>

text \<open>
  A JavaScript string is a sequence of UTF-16 code units, so a lone surrogate such as
  0xD800 is an ordinary element. String literals of the source are written with
  \<open>lit\<close>, which maps each ASCII character to its code unit.
\<close>

type_synonym code_unit = "16 word"
type_synonym jsstring = "code_unit list"

definition lit :: "string \<Rightarrow> jsstring" where
  "lit s = map of_char s"

text \<open>
  A JavaScript number is a double. The program never calculates with a severity: it
  tests its type, its truthiness and uses it as a property key. For these uses a finite
  number is modelled by its real value and \<open>NaN\<close> and the two infinities are kept
  apart (negative zero behaves like zero at every use below).
\<close>

datatype jsnum = Fin real | NaN | PosInfinity | NegInfinity

text \<open>
  The values an option of the caller can hold. \<open>JObject\<close> stands for every object,
  function and symbol: all that the program observes of them is \<open>typeof\<close> being
  different from \<open>'number'\<close> and their being truthy.
\<close>

datatype jsval =
    JUndefined
  | JNull
  | JBool bool
  | JNum jsnum
  | JStr jsstring
  | JBigInt int
  | JObject

text \<open>ToBoolean, as used by \<open>config ? 1 : 0\<close> and \<open>if (level)\<close>.\<close>

fun truthy_num :: "jsnum \<Rightarrow> bool" where
  "truthy_num (Fin r) = (r \<noteq> 0)"
| "truthy_num NaN = False"
| "truthy_num PosInfinity = True"
| "truthy_num NegInfinity = True"

fun truthy :: "jsval \<Rightarrow> bool" where
  "truthy JUndefined = False"
| "truthy JNull = False"
| "truthy (JBool b) = b"
| "truthy (JNum n) = truthy_num n"
| "truthy (JStr s) = (s \<noteq> [])"
| "truthy (JBigInt i) = (i \<noteq> 0)"
| "truthy JObject = True"

fun is_number :: "jsval \<Rightarrow> bool" where
  "is_number (JNum n) = True"
| "is_number v = False"

section \<open>Character classes and case conversion\<close>

text \<open>
  \<open>toUpperCase\<close> is applied by the program only to one lower-case ASCII letter
  (in \<open>camelcase\<close>) and to the output of \<open>toString(16)\<close>, so the ASCII part of the
  Unicode case mapping is all that is modelled; \<open>toLowerCase\<close> likewise.
\<close>

definition is_lower :: "code_unit \<Rightarrow> bool" where
  "is_lower c = (0x61 \<le> c \<and> c \<le> 0x7A)"

definition is_upper :: "code_unit \<Rightarrow> bool" where
  "is_upper c = (0x41 \<le> c \<and> c \<le> 0x5A)"

definition is_digit :: "code_unit \<Rightarrow> bool" where
  "is_digit c = (0x30 \<le> c \<and> c \<le> 0x39)"

definition upper_unit :: "code_unit \<Rightarrow> code_unit" where
  "upper_unit c = (if is_lower c then c - 0x20 else c)"

definition lower_unit :: "code_unit \<Rightarrow> code_unit" where
  "lower_unit c = (if is_upper c then c + 0x20 else c)"

definition toUpperCase :: "jsstring \<Rightarrow> jsstring" where
  "toUpperCase s = map upper_unit s"

definition toLowerCase :: "jsstring \<Rightarrow> jsstring" where
  "toLowerCase s = map lower_unit s"

section \<open>The identifier normalizer\<close>

text \<open>
  \<open>value.replace(/-[a-z]/g, ($0) => $0.charAt(1).toUpperCase())\<close>: scanning from the
  left, a hyphen followed by a lower-case ASCII letter is replaced by the upper-cased
  letter and the scan goes on after the letter; every other code unit is copied.
\<close>

fun camelcase :: "jsstring \<Rightarrow> jsstring" where
  "camelcase [] = []"
| "camelcase [c] = [c]"
| "camelcase (c # d # cs) =
     (if c = 0x2D \<and> is_lower d then toUpperCase [d] @ camelcase cs
      else c # camelcase (d # cs))"

text \<open>
  The documentation script of the repository goes the other way:
  \<open>key.replace(/[A-Z]/g, function ($0) { return '-' + $0.toLowerCase() })\<close>.
\<close>

fun kebab :: "jsstring \<Rightarrow> jsstring" where
  "kebab [] = []"
| "kebab (c # cs) =
     (if is_upper c then lit ''-'' @ toLowerCase [c] @ kebab cs else c # kebab cs)"

section \<open>Severity resolution\<close>

text \<open>
  The options of the caller are an object read by \<open>options[name]\<close>; a key that is
  not there reads as \<open>undefined\<close>. The map holds the properties of the object's own.
\<close>

type_synonym options = "jsstring \<rightharpoonup> jsval"

definition setting_of :: "options \<Rightarrow> jsstring \<Rightarrow> jsval" where
  "setting_of opts name = (case opts name of None \<Rightarrow> JUndefined | Some v \<Rightarrow> v)"

definition config_of :: "jsval \<Rightarrow> jsval" where
  "config_of setting =
     (if setting = JUndefined \<or> setting = JNull then JBool True else setting)"

definition level_of :: "jsval \<Rightarrow> jsnum" where
  "level_of config =
     (case config of JNum n \<Rightarrow> n | _ \<Rightarrow> if truthy config then Fin 1 else Fin 0)"

definition severity :: "options \<Rightarrow> jsstring \<Rightarrow> jsnum" where
  "severity opts name = level_of (config_of (setting_of opts name))"

section \<open>The template renderer\<close>

text \<open>
  \<open>doc.charAt(i)\<close> is the one-unit string at index \<open>i\<close>, and the empty string when
  \<open>i\<close> is outside the text. \<open>doc.charCodeAt(i)\<close> is the code unit there, and
  \<open>NaN\<close> outside the text, which is \<open>None\<close> here.
\<close>

definition charAt :: "jsstring \<Rightarrow> int \<Rightarrow> jsstring" where
  "charAt doc i = (if 0 \<le> i \<and> i < int (length doc) then [doc ! nat i] else [])"

definition charCodeAt :: "jsstring \<Rightarrow> int \<Rightarrow> nat option" where
  "charCodeAt doc i =
     (if 0 \<le> i \<and> i < int (length doc) then Some (unat (doc ! nat i)) else None)"

text \<open>
  \<open>Number.parseInt($2, 10)\<close> on a run of decimal digits. The result is exact here;
  a double is exact below 2 to the power 53, and a run whose value is above that reads
  outside every text a program can hold before and after rounding.
\<close>

definition digit_value :: "code_unit \<Rightarrow> nat" where
  "digit_value c = unat c - 48"

definition parseInt10 :: "jsstring \<Rightarrow> nat" where
  "parseInt10 ds = foldl (\<lambda>n c. 10 * n + digit_value c) 0 ds"

text \<open>
  \<open>n.toString(16)\<close> of a non-negative integer: lower-case digits, most significant
  first, no leading zero; \<open>NaN.toString(16)\<close> is \<open>"NaN"\<close>.
\<close>

definition hex_digit :: "nat \<Rightarrow> code_unit" where
  "hex_digit d = lit ''0123456789abcdef'' ! d"

function digits16 :: "nat \<Rightarrow> jsstring" where
  "digits16 n = (if n < 16 then [hex_digit n] else digits16 (n div 16) @ [hex_digit (n mod 16)])"
  by pat_completeness auto
termination
  by (relation "measure id") auto

declare digits16.simps [simp del]

definition toString16 :: "nat option \<Rightarrow> jsstring" where
  "toString16 v = (case v of None \<Rightarrow> lit ''NaN'' | Some n \<Rightarrow> digits16 n)"

text \<open>
  The optional group \<open>(?:([-+])(\d+))?\<close> tried right after a \<open>%c\<close>: a sign that a
  digit follows, with the longest run of digits; the result is the two captures (both
  \<open>undefined\<close>, here \<open>None\<close>, when the group does not match) and the text left.
\<close>

definition is_sign :: "code_unit \<Rightarrow> bool" where
  "is_sign c = (c = 0x2D \<or> c = 0x2B)"

fun match_offset :: "jsstring \<Rightarrow> (code_unit option \<times> jsstring option) \<times> jsstring" where
  "match_offset (s # d # more) =
     (if is_sign s \<and> is_digit d
      then ((Some s, Some (takeWhile is_digit (d # more))), dropWhile is_digit (d # more))
      else ((None, None), s # d # more))"
| "match_offset xs = ((None, None), xs)"

text \<open>The callback of the first \<open>replace\<close>, with the captures \<open>$1\<close> and \<open>$2\<close>.\<close>

definition backtick :: code_unit where
  "backtick = 0x60"

definition replace_char :: "jsstring \<Rightarrow> int \<Rightarrow> code_unit option \<Rightarrow> jsstring option \<Rightarrow> jsstring" where
  "replace_char doc startOffset g1 g2 =
     (let offset = (case g2 of None \<Rightarrow> 0
                     | Some ds \<Rightarrow> if ds \<noteq> [] then int (parseInt10 ds) else 0)
                   * (if g1 = Some 0x2D then - 1 else 1);
          char = charAt doc (startOffset + offset)
      in if char = [backtick] then [backtick, 0x20, backtick, 0x20, backtick] else char)"

text \<open>The callback of the second \<open>replace\<close>.\<close>

definition replace_hex :: "jsstring \<Rightarrow> int \<Rightarrow> jsstring" where
  "replace_hex doc startOffset =
     lit ''0x'' @ toUpperCase (toString16 (charCodeAt doc startOffset))"

text \<open>
  \<open>value.replace(/%c(?:([-+])(\d+))?/g, ...)\<close>: the matches are found from the left
  and do not overlap; what lies between them is copied.
\<close>

function replace_c :: "jsstring \<Rightarrow> int \<Rightarrow> jsstring \<Rightarrow> jsstring" where
  "replace_c doc startOffset [] = []"
| "replace_c doc startOffset [c] = [c]"
| "replace_c doc startOffset (c # d # cs) =
     (if c = 0x25 \<and> d = 0x63
      then (case match_offset cs of
              ((g1, g2), rest) \<Rightarrow>
                replace_char doc startOffset g1 g2 @ replace_c doc startOffset rest)
      else c # replace_c doc startOffset (d # cs))"
  by pat_completeness auto

termination replace_c
proof (relation "measure (\<lambda>(doc, startOffset, v). length v)")
  fix doc :: jsstring and startOffset :: int and c d :: code_unit and cs x1 rest :: jsstring
    and x g1 g2
  assume m: "(x, rest) = match_offset cs"
  have "length (snd (match_offset cs)) \<le> length cs"
  proof (cases cs rule: match_offset.cases)
    case (1 s e more)
    have "length (dropWhile is_digit (e # more)) \<le> length (e # more)"
      by (rule length_dropWhile_le)
    then have "length (snd (match_offset (s # e # more))) \<le> length (s # e # more)"
      by (simp del: dropWhile.simps)
    with 1 show ?thesis by simp
  qed simp_all
  moreover from m have "rest = snd (match_offset cs)" by (metis snd_conv)
  ultimately show "((doc, startOffset, rest), (doc, startOffset, c # d # cs))
      \<in> measure (\<lambda>(doc, startOffset, v). length v)"
    by simp
qed simp_all

text \<open>\<open>.replace(/%x/g, ...)\<close>.\<close>

fun replace_x :: "jsstring \<Rightarrow> int \<Rightarrow> jsstring \<Rightarrow> jsstring" where
  "replace_x doc startOffset [] = []"
| "replace_x doc startOffset [c] = [c]"
| "replace_x doc startOffset (c # d # cs) =
     (if c = 0x25 \<and> d = 0x78
      then replace_hex doc startOffset @ replace_x doc startOffset cs
      else c # replace_x doc startOffset (d # cs))"

text \<open>\<open>format\<close>: the second \<open>replace\<close> runs on the result of the first.\<close>

definition format :: "jsstring \<Rightarrow> int \<Rightarrow> jsstring \<Rightarrow> jsstring" where
  "format doc startOffset v = replace_x doc startOffset (replace_c doc startOffset v)"

section \<open>The diagnostic assembler\<close>

text \<open>
  A raw event of the parser, and a place of a message. Lines, columns and offsets are
  integers handed through as they are.
\<close>

record error =
  code :: jsstring
  startLine :: int
  startCol :: int
  startOffset :: int
  endLine :: int
  endCol :: int
  endOffset :: int

record point =
  line :: int
  column :: int
  offset :: int

text \<open>
  An entry of the catalog \<open>errors\<close>. The \<open>url\<close> property need not be there
  (\<open>'url' in info\<close>), hence the option. The catalog itself is a table in a file of
  its own and is a parameter of everything below, as a map from the camel-case key to
  the entry; \<open>errors[name]\<close> of a key that is not there is \<open>undefined\<close>.
\<close>

record info =
  reason :: jsstring
  description :: jsstring
  url :: "jsval option"

type_synonym catalog = "jsstring \<rightharpoonup> info"

text \<open>
  The message handed to the sink, with the fields \<open>onerror\<close> fills. The message
  object is made by the constructor of a library from the rendered reason and the
  place; the text it makes of the place for \<open>name\<close> is the parameter
  \<open>range_name\<close>. \<open>file'\<close> is the property \<open>file\<close>, \<open>None\<close> when it is not
  set, \<open>note'\<close> is the property \<open>note\<close>, and \<open>position_start\<close> and \<open>position_end\<close> are the two ends of \<open>position\<close>.
\<close>

record message =
  reason :: jsstring
  position_start :: point
  position_end :: point
  name :: jsstring
  file' :: "jsstring option"
  source :: jsstring
  ruleId :: jsstring
  fatal :: jsval
  note' :: jsstring
  url :: jsval

text \<open>
  What \<open>onerror\<close> closes over in \<open>fromHtml\<close>: the text \<open>doc\<close>, the path of the
  file (\<open>None\<close> when undefined), the options of the caller, and the two parameters
  above.
\<close>

record closure =
  doc :: jsstring
  path :: "jsstring option"
  options :: options
  errors :: catalog
  range_name :: "point \<Rightarrow> point \<Rightarrow> jsstring"

definition base :: jsstring where
  "base = lit ''https://html.spec.whatwg.org/multipage/parsing.html#parse-error-''"

text \<open>
  \<open>const fatalities = {2: true, 1: false, 0: null}\<close>, read by \<open>fatalities[level]\<close>:
  the number is turned into a property key, and a key that is not there reads as
  \<open>undefined\<close>.
\<close>

fun fatalities :: "jsnum \<Rightarrow> jsval" where
  "fatalities (Fin r) =
     (if r = 2 then JBool True else if r = 1 then JBool False
      else if r = 0 then JNull else JUndefined)"
| "fatalities n = JUndefined"

text \<open>
  The catalog is an ordinary object, as the script of the repository that walks it
  with \<open>own.call(errors, key)\<close> takes it to be: \<open>errors[name]\<close> finds the entry of
  the catalog's own, and otherwise a member that every object inherits from
  \<open>Object.prototype\<close>, and is \<open>undefined\<close> only when the name is neither. The
  inherited members are these, all of them functions or objects, hence truthy.
\<close>

definition object_prototype_names :: "jsstring list" where
  "object_prototype_names =
     [lit ''constructor'', lit ''hasOwnProperty'', lit ''isPrototypeOf'',
      lit ''propertyIsEnumerable'', lit ''toLocaleString'', lit ''toString'',
      lit ''valueOf'', lit ''__proto__'', lit ''__defineGetter__'',
      lit ''__defineSetter__'', lit ''__lookupGetter__'', lit ''__lookupSetter__'']"

text \<open>
  \<open>errors[name] || {reason: '', description: '', url: ''}\<close>. The value is an entry
  (\<open>Info\<close>: one of the catalog, or the fallback when the lookup gives
  \<open>undefined\<close>), or an inherited member, which is truthy and so is taken instead of
  the fallback; it has no \<open>reason\<close>, no \<open>description\<close> and no \<open>url\<close>.
\<close>

datatype info_value = Info info | Inherited

definition fallback :: info where
  "fallback = \<lparr>info.reason = [], description = [], info.url = Some (JStr [])\<rparr>"

definition info_of :: "catalog \<Rightarrow> jsstring \<Rightarrow> info_value" where
  "info_of errs key =
     (case errs key of
        Some i \<Rightarrow> Info i
      | None \<Rightarrow> if key \<in> set object_prototype_names then Inherited else Info fallback)"

text \<open>
  The severity of an event: the first five lines of \<open>onerror\<close>, where \<open>code\<close> is
  \<open>error.code\<close> and \<open>name\<close> is \<open>camelcase(code)\<close>. An option that is not the caller's
  own but inherited is a function: not a number and truthy, it resolves to 1, as
  the absent option it is modelled by does.
\<close>

definition level :: "closure \<Rightarrow> error \<Rightarrow> jsnum" where
  "level cl e =
     (let setting = setting_of (options cl) (camelcase (code e));
          config = config_of setting
      in level_of config)"

text \<open>
  The message built in the body of \<open>if (level)\<close> from an entry \<open>info\<close>.
\<close>

definition diagnostic :: "closure \<Rightarrow> error \<Rightarrow> info \<Rightarrow> message" where
  "diagnostic cl e info =
     (let start = \<lparr>line = startLine e, column = startCol e, offset = startOffset e\<rparr>;
          end' = \<lparr>line = endLine e, column = endCol e, offset = endOffset e\<rparr>;
          named = (case path cl of None \<Rightarrow> False | Some p \<Rightarrow> p \<noteq> [])
      in \<lparr>message.reason = format (doc cl) (startOffset e) (info.reason info),
          position_start = start,
          position_end = end',
          name = (if named then the (path cl) @ lit '':'' @ range_name cl start end'
                  else range_name cl start end'),
          file' = (if named then path cl else None),
          source = lit ''parse-error'',
          ruleId = code e,
          fatal = fatalities (level cl e),
          note' = format (doc cl) (startOffset e) (description info),
          message.url = (if info.url info = Some (JBool False) then JNull
                         else JStr (base @ code e))\<rparr>)"

text \<open>
  \<open>onerror\<close>. The sink \<open>warn\<close> is the callback of the caller; its calls are
  recorded, in order, in the list that is passed through. With an inherited member
  for \<open>info\<close>, \<open>info.reason\<close> is \<open>undefined\<close> and the first statement of the body,
  \<open>format(info.reason)\<close>, raises a \<open>TypeError\<close> at \<open>value.replace\<close>, before the
  message is made and before \<open>warn\<close> is called.
\<close>

datatype js_error = TypeError

definition onerror :: "closure \<Rightarrow> error \<Rightarrow> message list \<Rightarrow> js_error + message list" where
  "onerror cl e sink =
     (if truthy (JNum (level cl e))
      then (case info_of (errors cl) (camelcase (code e)) of
              Inherited \<Rightarrow> Inl TypeError
            | Info info \<Rightarrow> Inr (sink @ [diagnostic cl e info]))
      else Inr sink)"

text \<open>
  The parser calls \<open>onParseError\<close> once for each event, in the order of the events;
  an exception of the callback ends the parse. The result is what the sink has
  received, and the exception if there was one.
\<close>

fun report_from :: "closure \<Rightarrow> message list \<Rightarrow> error list \<Rightarrow> message list \<times> js_error option" where
  "report_from cl sink [] = (sink, None)"
| "report_from cl sink (e # es) =
     (case onerror cl e sink of
        Inl x \<Rightarrow> (sink, Some x)
      | Inr sink' \<Rightarrow> report_from cl sink' es)"

definition report :: "closure \<Rightarrow> error list \<Rightarrow> message list \<times> js_error option" where
  "report cl events = report_from cl [] events"

section \<open>Notions of the specification\<close>

text \<open>
  A hyphen-case rule code is a sequence of non-empty words of lower-case ASCII letters
  separated by single hyphens. \<open>split_hyphen\<close> cuts a string at its hyphens.
\<close>

fun split_hyphen :: "jsstring \<Rightarrow> jsstring list" where
  "split_hyphen [] = [[]]"
| "split_hyphen (c # cs) =
     (if c = 0x2D then [] # split_hyphen cs
      else (case split_hyphen cs of [] \<Rightarrow> [[c]] | w # ws \<Rightarrow> (c # w) # ws))"

definition hyphen_case :: "jsstring \<Rightarrow> bool" where
  "hyphen_case s = list_all (\<lambda>w. w \<noteq> [] \<and> list_all is_lower w) (split_hyphen s)"

text \<open>
  The key as the specification words it: the hyphens are removed and the character
  after each of them, the first of every word but the first, is upper-cased.
\<close>

definition capitalize :: "jsstring \<Rightarrow> jsstring" where
  "capitalize w = (case w of [] \<Rightarrow> [] | c # cs \<Rightarrow> upper_unit c # cs)"

definition camel_of_words :: "jsstring list \<Rightarrow> jsstring" where
  "camel_of_words ws = (case ws of [] \<Rightarrow> [] | w # rest \<Rightarrow> w @ concat (map capitalize rest))"

text \<open>
  Two weaker conditions that the proofs go through: every word after the first is
  non-empty and starts with a lower-case letter, and every word is made of lower-case
  letters.
\<close>

definition tail_ok :: "jsstring \<Rightarrow> bool" where
  "tail_ok s = list_all (\<lambda>w. w \<noteq> [] \<and> is_lower (hd w)) (tl (split_hyphen s))"

definition lower_words :: "jsstring \<Rightarrow> bool" where
  "lower_words s = list_all (list_all is_lower) (split_hyphen s)"

text \<open>
  What follows a \<open>%c\<close>: \<open>starts_offset\<close> holds when a sign and a digit come next.
  The substitute of a placeholder is the selected character, escaped when it is a
  backtick; \<open>signed\<close> is the offset a sign and the value of a digit run stand for.
\<close>

fun starts_offset :: "jsstring \<Rightarrow> bool" where
  "starts_offset (s # x # xs) = (is_sign s \<and> is_digit x)"
| "starts_offset b = False"

definition escape :: "jsstring \<Rightarrow> jsstring" where
  "escape ch = (if ch = lit ''`'' then lit ''` ` `'' else ch)"

definition signed :: "code_unit \<Rightarrow> nat \<Rightarrow> int" where
  "signed s n = (if s = 0x2D then - int n else int n)"

text \<open>
  A seam: the text \<open>u\<close> ends with a percent sign and the text \<open>v\<close> after it starts
  with an \<open>x\<close>, so that the two together hold a \<open>%x\<close> that neither holds alone.
\<close>

definition seam :: "jsstring \<Rightarrow> jsstring \<Rightarrow> bool" where
  "seam u v = (u \<noteq> [] \<and> last u = 0x25 \<and> v \<noteq> [] \<and> hd v = 0x78)"

text \<open>
  Upper-case hexadecimal numerals: the digits \<open>0\<close> to \<open>9\<close> and \<open>A\<close> to \<open>F\<close>, and
  the number a string of them denotes.
\<close>

definition is_hex_upper :: "code_unit \<Rightarrow> bool" where
  "is_hex_upper c = (is_digit c \<or> (0x41 \<le> c \<and> c \<le> 0x46))"

definition hex_upper_value :: "code_unit \<Rightarrow> nat" where
  "hex_upper_value c = (if is_digit c then unat c - 48 else unat c - 55)"

definition read_hex :: "jsstring \<Rightarrow> nat" where
  "read_hex s = foldl (\<lambda>n c. 16 * n + hex_upper_value c) 0 s"

section \<open>Sample inputs\<close>

text \<open>
  Two entries in the shape the tests of the repository show, one with its URL switched
  off and one with a \<open>%c\<close> placeholder, a closure over a text without a file path, and
  an event at an offset of the first line.
\<close>

definition sample_errors :: catalog where
  "sample_errors =
     [lit ''missingDoctype'' \<mapsto>
        \<lparr>info.reason = lit ''Missing doctype before other content'',
         description = lit ''Expected a `<!doctype html>` before anything else'',
         info.url = Some (JBool False)\<rparr>,
      lit ''endTagWithTrailingSolidus'' \<mapsto>
        \<lparr>info.reason = lit ''Unexpected slash at end of closing tag'',
         description = lit ''Unexpected `%c-1`. Expected `>` instead'',
         info.url = None\<rparr>]"

definition sample_closure :: "jsstring \<Rightarrow> options \<Rightarrow> closure" where
  "sample_closure src opts =
     \<lparr>doc = src, path = None, options = opts, errors = sample_errors,
      range_name = (\<lambda>p q. [])\<rparr>"

definition sample_error :: "jsstring \<Rightarrow> int \<Rightarrow> error" where
  "sample_error c i =
     \<lparr>code = c, startLine = 1, startCol = i + 1, startOffset = i,
      endLine = 1, endCol = i + 1, endOffset = i\<rparr>"

section \<open>Severity\<close>

lemma level_severity: "level cl e = severity (options cl) (camelcase (code e))"
  by (simp add: level_def severity_def)

lemma severity_cases:
  "severity opts k =
     (case opts k of
        None \<Rightarrow> Fin 1
      | Some JUndefined \<Rightarrow> Fin 1
      | Some JNull \<Rightarrow> Fin 1
      | Some (JNum n) \<Rightarrow> n
      | Some v \<Rightarrow> if truthy v then Fin 1 else Fin 0)"
  by (simp add: severity_def setting_of_def config_of_def level_of_def
      split: option.split jsval.split)

text \<open>
  C1. The severity of a rule is found by default-then-coerce: when the option of the
  rule is absent, \<open>null\<close> or \<open>undefined\<close> it is 1; a number is returned unchanged;
  any other truthy value gives 1; any other falsy value (one that was not replaced by
  the default) gives 0.
\<close>

theorem severity_default_then_coerce:
  "(opts k = None \<or> opts k = Some JNull \<or> opts k = Some JUndefined
      \<longrightarrow> severity opts k = Fin 1)
   \<and> (opts k = Some (JNum n) \<longrightarrow> severity opts k = n)
   \<and> (opts k = Some v \<and> \<not> is_number v \<and> truthy v \<longrightarrow> severity opts k = Fin 1)
   \<and> (opts k = Some v \<and> \<not> is_number v \<and> \<not> truthy v \<and> v \<noteq> JNull \<and> v \<noteq> JUndefined
      \<longrightarrow> severity opts k = Fin 0)"
  by (cases v) (auto simp: severity_cases)

theorem severity_default_then_coerce_witness:
  "severity Map.empty (lit ''missingDoctype'') = Fin 1
   \<and> severity [lit ''missingDoctype'' \<mapsto> JNull] (lit ''missingDoctype'') = Fin 1
   \<and> severity [lit ''missingDoctype'' \<mapsto> JNum (Fin 2)] (lit ''missingDoctype'') = Fin 2
   \<and> severity [lit ''missingDoctype'' \<mapsto> JBool True] (lit ''missingDoctype'') = Fin 1
   \<and> severity [lit ''missingDoctype'' \<mapsto> JBool False] (lit ''missingDoctype'') = Fin 0"
  using severity_default_then_coerce [of Map.empty "lit ''missingDoctype''" NaN JNull]
    severity_default_then_coerce [of "[lit ''missingDoctype'' \<mapsto> JNull]"
      "lit ''missingDoctype''" NaN JNull]
    severity_default_then_coerce [of "[lit ''missingDoctype'' \<mapsto> JNum (Fin 2)]"
      "lit ''missingDoctype''" "Fin 2" JNull]
    severity_default_then_coerce [of "[lit ''missingDoctype'' \<mapsto> JBool True]"
      "lit ''missingDoctype''" NaN "JBool True"]
    severity_default_then_coerce [of "[lit ''missingDoctype'' \<mapsto> JBool False]"
      "lit ''missingDoctype''" NaN "JBool False"]
  by simp

text \<open>
  C4, as stated: the severity is in \<open>{0, 1, 2}\<close> whatever the option holds. A number
  is passed through unchanged, so the option 3 gives the severity 3.
\<close>

theorem severity_range_counterexample:
  "severity [lit ''missingDoctype'' \<mapsto> JNum (Fin 3)] (camelcase (lit ''missing-doctype''))
     \<notin> {Fin 0, Fin 1, Fin 2}"
  by (simp add: severity_cases lit_def toUpperCase_def upper_unit_def is_lower_def)

text \<open>
  C4, amended: when the option of the rule is absent or holds anything but a number
  other than 0, 1 and 2, the severity is 0, 1 or 2.
\<close>

theorem severity_range:
  "(\<forall>n. opts k = Some (JNum n) \<longrightarrow> n \<in> {Fin 0, Fin 1, Fin 2})
     \<Longrightarrow> severity opts k \<in> {Fin 0, Fin 1, Fin 2}"
  by (auto simp: severity_cases split: option.split jsval.split)

theorem severity_range_witness:
  "[lit ''missingDoctype'' \<mapsto> JBool False] (lit ''missingDoctype'') = Some (JBool False)
   \<and> severity [lit ''missingDoctype'' \<mapsto> JBool False] (lit ''missingDoctype'')
       \<in> {Fin 0, Fin 1, Fin 2}"
  using severity_range [of "[lit ''missingDoctype'' \<mapsto> JBool False]" "lit ''missingDoctype''"]
  by simp

section \<open>Delivery to the sink\<close>

lemma onerror_cases:
  "onerror cl e sink = Inr ms \<longleftrightarrow>
     (\<not> truthy_num (level cl e) \<and> ms = sink)
     \<or> (truthy_num (level cl e)
        \<and> (\<exists>i. info_of (errors cl) (camelcase (code e)) = Info i
              \<and> ms = sink @ [diagnostic cl e i]))"
  by (auto simp: onerror_def split: info_value.splits)

lemma info_of_Info:
  "info_of errs k = Info i \<longleftrightarrow>
     errs k = Some i \<or> (errs k = None \<and> k \<notin> set object_prototype_names \<and> i = fallback)"
  by (auto simp: info_of_def split: option.splits)

lemma emitted_message:
  assumes "onerror cl e [] = Inr ms" and "m \<in> set ms"
  shows "truthy_num (level cl e)
    \<and> (\<exists>i. info_of (errors cl) (camelcase (code e)) = Info i \<and> m = diagnostic cl e i)"
  using assms by (auto simp: onerror_cases)

lemma ruleId_diagnostic: "ruleId (diagnostic cl e i) = code e"
  by (simp add: diagnostic_def Let_def)

lemma fatal_diagnostic: "fatal (diagnostic cl e i) = fatalities (level cl e)"
  by (simp add: diagnostic_def Let_def)

lemma url_diagnostic:
  "message.url (diagnostic cl e i) =
     (if info.url i = Some (JBool False) then JNull else JStr (base @ code e))"
  by (simp add: diagnostic_def Let_def)

lemma report_from_members:
  "m \<in> set (fst (report_from cl sink events)) \<Longrightarrow>
     m \<in> set sink
     \<or> (\<exists>e \<in> set events. \<exists>i. truthy_num (level cl e) \<and> m = diagnostic cl e i)"
proof (induction events arbitrary: sink)
  case Nil
  then show ?case by simp
next
  case (Cons e es)
  show ?case
  proof (cases "onerror cl e sink")
    case (Inl x)
    with Cons.prems show ?thesis by simp
  next
    case (Inr ms)
    with Cons.prems have "m \<in> set (fst (report_from cl ms es))" by simp
    then have "m \<in> set ms
        \<or> (\<exists>e \<in> set es. \<exists>i. truthy_num (level cl e) \<and> m = diagnostic cl e i)"
      by (rule Cons.IH)
    moreover from Inr have "ms = sink
        \<or> (truthy_num (level cl e) \<and> (\<exists>i. ms = sink @ [diagnostic cl e i]))"
      by (auto simp: onerror_cases)
    ultimately show ?thesis by auto
  qed
qed

text \<open>
  C2, as stated: a severity other than 0 has the sink invoked once. The option
  \<open>NaN\<close> is a number, so it is the severity, it is not 0, and \<open>if (level)\<close> takes
  it for false: the sink is not invoked.
\<close>

theorem sink_nonzero_counterexample:
  "level (sample_closure (lit ''a'') [lit ''missingDoctype'' \<mapsto> JNum NaN])
       (sample_error (lit ''missing-doctype'') 0) \<noteq> Fin 0
   \<and> onerror (sample_closure (lit ''a'') [lit ''missingDoctype'' \<mapsto> JNum NaN])
       (sample_error (lit ''missing-doctype'') 0) [] = Inr []"
  by (simp add: onerror_def level_def setting_of_def config_of_def level_of_def
      sample_closure_def sample_error_def lit_def toUpperCase_def upper_unit_def is_lower_def)

text \<open>
  C2, amended: when the severity of an event is 0 or \<open>NaN\<close> the sink is not invoked
  and \<open>onerror\<close> returns; when it is neither, and the catalog has an entry of its
  own for the rule or the key of the rule is not the name of an inherited member,
  the sink is invoked exactly once, with the diagnostic assembled from the entry
  or from the fallback, before \<open>onerror\<close> returns; and when the option of a rule is
  \<open>false\<close> or 0, no message that the sink receives in a whole parse carries the
  code of that rule. (What happens at the name of an inherited member is the matter
  of C9.)
\<close>

theorem sink_invocation:
  "(level cl e = Fin 0 \<or> level cl e = NaN \<longrightarrow> onerror cl e sink = Inr sink)
   \<and> (level cl e \<noteq> Fin 0 \<and> level cl e \<noteq> NaN
        \<and> (errors cl (camelcase (code e)) = Some i
           \<or> (errors cl (camelcase (code e)) = None
              \<and> camelcase (code e) \<notin> set object_prototype_names \<and> i = fallback))
        \<longrightarrow> onerror cl e sink = Inr (sink @ [diagnostic cl e i]))
   \<and> (options cl (camelcase c) = Some (JBool False) \<or> options cl (camelcase c) = Some (JNum (Fin 0))
        \<longrightarrow> (\<forall>m \<in> set (fst (report cl events)). ruleId m \<noteq> c))"
proof (intro conjI impI ballI)
  assume "level cl e = Fin 0 \<or> level cl e = NaN"
  then show "onerror cl e sink = Inr sink" by (auto simp: onerror_def)
next
  assume h: "level cl e \<noteq> Fin 0 \<and> level cl e \<noteq> NaN
      \<and> (errors cl (camelcase (code e)) = Some i
         \<or> (errors cl (camelcase (code e)) = None
            \<and> camelcase (code e) \<notin> set object_prototype_names \<and> i = fallback))"
  then have "info_of (errors cl) (camelcase (code e)) = Info i"
    by (simp only: info_of_Info)
  moreover from h have "truthy_num (level cl e)"
    by (cases "level cl e") auto
  ultimately show "onerror cl e sink = Inr (sink @ [diagnostic cl e i])"
    by (simp add: onerror_def)
next
  fix m
  assume off: "options cl (camelcase c) = Some (JBool False)
      \<or> options cl (camelcase c) = Some (JNum (Fin 0))"
    and m: "m \<in> set (fst (report cl events))"
  from m obtain ev i where ev: "truthy_num (level cl ev)" "m = diagnostic cl ev i"
    using report_from_members [of m cl "[]" events] by (auto simp: report_def)
  show "ruleId m \<noteq> c"
  proof
    assume "ruleId m = c"
    with ev have "code ev = c" by (simp add: ruleId_diagnostic)
    with off have "level cl ev = Fin 0"
      by (auto simp: level_severity severity_cases)
    with ev show False by simp
  qed
qed

theorem sink_invocation_witness:
  "level (sample_closure (lit ''a'') [lit ''missingDoctype'' \<mapsto> JBool False])
       (sample_error (lit ''missing-doctype'') 0) = Fin 0
   \<and> onerror (sample_closure (lit ''a'') [lit ''missingDoctype'' \<mapsto> JBool False])
       (sample_error (lit ''missing-doctype'') 0) [] = Inr []
   \<and> level (sample_closure (lit ''a'') Map.empty) (sample_error (lit ''no-such-rule'') 0)
       = Fin 1
   \<and> errors (sample_closure (lit ''a'') Map.empty)
       (camelcase (code (sample_error (lit ''no-such-rule'') 0))) = None
   \<and> camelcase (code (sample_error (lit ''no-such-rule'') 0)) \<notin> set object_prototype_names
   \<and> onerror (sample_closure (lit ''a'') Map.empty) (sample_error (lit ''no-such-rule'') 0) []
       = Inr [diagnostic (sample_closure (lit ''a'') Map.empty)
            (sample_error (lit ''no-such-rule'') 0) fallback]
   \<and> options (sample_closure (lit ''a'') [lit ''missingDoctype'' \<mapsto> JBool False])
         (camelcase (lit ''missing-doctype'')) = Some (JBool False)
   \<and> fst (report (sample_closure (lit ''a'') [lit ''missingDoctype'' \<mapsto> JBool False])
         [sample_error (lit ''missing-doctype'') 0]) = []"
  using sink_invocation [of "sample_closure (lit ''a'') [lit ''missingDoctype'' \<mapsto> JBool False]"
      "sample_error (lit ''missing-doctype'') 0" "[]" fallback "lit ''missing-doctype''"
      "[sample_error (lit ''missing-doctype'') 0]"]
    sink_invocation [of "sample_closure (lit ''a'') Map.empty"
      "sample_error (lit ''no-such-rule'') 0" "[]" fallback "lit ''missing-doctype''" "[]"]
  by (simp add: report_def onerror_def level_def setting_of_def config_of_def level_of_def
      sample_closure_def sample_error_def sample_errors_def object_prototype_names_def
      lit_def toUpperCase_def upper_unit_def is_lower_def)

section \<open>The fields of a message\<close>

text \<open>
  C3. In every message handed to the sink, \<open>fatal\<close> is \<open>true\<close> exactly when the
  severity is 2 and \<open>false\<close> exactly when it is 1, and it is never \<open>null\<close>.
\<close>

theorem fatal_field:
  "onerror cl e [] = Inr ms \<Longrightarrow> m \<in> set ms \<Longrightarrow>
     (fatal m = JBool True \<longleftrightarrow> level cl e = Fin 2)
     \<and> (fatal m = JBool False \<longleftrightarrow> level cl e = Fin 1)
     \<and> fatal m \<noteq> JNull"
proof -
  assume "onerror cl e [] = Inr ms" and "m \<in> set ms"
  then have "truthy_num (level cl e)" and "fatal m = fatalities (level cl e)"
    using emitted_message [of cl e ms m] by (auto simp: fatal_diagnostic)
  then show ?thesis by (cases "level cl e") auto
qed

theorem fatal_field_witness:
  "onerror (sample_closure (lit ''a'') [lit ''missingDoctype'' \<mapsto> JNum (Fin 2)])
       (sample_error (lit ''missing-doctype'') 0) []
     = Inr [diagnostic (sample_closure (lit ''a'') [lit ''missingDoctype'' \<mapsto> JNum (Fin 2)])
              (sample_error (lit ''missing-doctype'') 0)
              \<lparr>info.reason = lit ''Missing doctype before other content'',
               description = lit ''Expected a `<!doctype html>` before anything else'',
               info.url = Some (JBool False)\<rparr>]
   \<and> fatal (diagnostic (sample_closure (lit ''a'') [lit ''missingDoctype'' \<mapsto> JNum (Fin 2)])
       (sample_error (lit ''missing-doctype'') 0)
       \<lparr>info.reason = lit ''Missing doctype before other content'',
        description = lit ''Expected a `<!doctype html>` before anything else'',
        info.url = Some (JBool False)\<rparr>) = JBool True"
  using fatal_field [of "sample_closure (lit ''a'') [lit ''missingDoctype'' \<mapsto> JNum (Fin 2)]"
      "sample_error (lit ''missing-doctype'') 0"
      "[diagnostic (sample_closure (lit ''a'') [lit ''missingDoctype'' \<mapsto> JNum (Fin 2)])
              (sample_error (lit ''missing-doctype'') 0)
              \<lparr>info.reason = lit ''Missing doctype before other content'',
               description = lit ''Expected a `<!doctype html>` before anything else'',
               info.url = Some (JBool False)\<rparr>]"
      "diagnostic (sample_closure (lit ''a'') [lit ''missingDoctype'' \<mapsto> JNum (Fin 2)])
              (sample_error (lit ''missing-doctype'') 0)
              \<lparr>info.reason = lit ''Missing doctype before other content'',
               description = lit ''Expected a `<!doctype html>` before anything else'',
               info.url = Some (JBool False)\<rparr>"]
  by (simp add: onerror_def info_of_def level_def setting_of_def config_of_def level_of_def
      sample_closure_def sample_error_def sample_errors_def lit_def toUpperCase_def
      upper_unit_def is_lower_def)

text \<open>
  C7. In every message handed to the sink, \<open>url\<close> is \<open>null\<close> exactly when the entry
  of the catalog for the rule has its \<open>url\<close> set to \<open>false\<close>; otherwise it is the base
  prefix followed by the code of the event as the parser gave it, and so not the
  prefix followed by the camel-case key whenever the two differ.
\<close>

theorem url_field:
  "onerror cl e [] = Inr ms \<Longrightarrow> m \<in> set ms \<Longrightarrow>
     (message.url m = JNull \<longleftrightarrow>
        (\<exists>i. errors cl (camelcase (code e)) = Some i \<and> info.url i = Some (JBool False)))
     \<and> (message.url m \<noteq> JNull \<longrightarrow> message.url m = JStr (base @ code e))
     \<and> (camelcase (code e) \<noteq> code e \<longrightarrow> message.url m \<noteq> JStr (base @ camelcase (code e)))"
proof -
  assume "onerror cl e [] = Inr ms" and "m \<in> set ms"
  then obtain i where i: "info_of (errors cl) (camelcase (code e)) = Info i"
    and m: "m = diagnostic cl e i"
    using emitted_message [of cl e ms m] by auto
  from i have "errors cl (camelcase (code e)) = Some i
      \<or> (errors cl (camelcase (code e)) = None \<and> i = fallback)"
    by (auto simp: info_of_Info)
  then show ?thesis
    unfolding m url_diagnostic by (auto simp: fallback_def)
qed

theorem url_field_witness:
  "onerror (sample_closure (lit ''a'') Map.empty) (sample_error (lit ''missing-doctype'') 0) []
     = Inr [diagnostic (sample_closure (lit ''a'') Map.empty)
              (sample_error (lit ''missing-doctype'') 0)
              \<lparr>info.reason = lit ''Missing doctype before other content'',
               description = lit ''Expected a `<!doctype html>` before anything else'',
               info.url = Some (JBool False)\<rparr>]
   \<and> message.url (diagnostic (sample_closure (lit ''a'') Map.empty)
        (sample_error (lit ''missing-doctype'') 0)
        \<lparr>info.reason = lit ''Missing doctype before other content'',
         description = lit ''Expected a `<!doctype html>` before anything else'',
         info.url = Some (JBool False)\<rparr>) = JNull
   \<and> onerror (sample_closure (lit ''</x/>'') Map.empty)
        (sample_error (lit ''end-tag-with-trailing-solidus'') 4) []
     = Inr [diagnostic (sample_closure (lit ''</x/>'') Map.empty)
              (sample_error (lit ''end-tag-with-trailing-solidus'') 4)
              \<lparr>info.reason = lit ''Unexpected slash at end of closing tag'',
               description = lit ''Unexpected `%c-1`. Expected `>` instead'',
               info.url = None\<rparr>]
   \<and> message.url (diagnostic (sample_closure (lit ''</x/>'') Map.empty)
        (sample_error (lit ''end-tag-with-trailing-solidus'') 4)
        \<lparr>info.reason = lit ''Unexpected slash at end of closing tag'',
         description = lit ''Unexpected `%c-1`. Expected `>` instead'',
         info.url = None\<rparr>)
       = JStr (base @ lit ''end-tag-with-trailing-solidus'')"
  using url_field [of "sample_closure (lit ''a'') Map.empty"
      "sample_error (lit ''missing-doctype'') 0"
      "[diagnostic (sample_closure (lit ''a'') Map.empty)
              (sample_error (lit ''missing-doctype'') 0)
              \<lparr>info.reason = lit ''Missing doctype before other content'',
               description = lit ''Expected a `<!doctype html>` before anything else'',
               info.url = Some (JBool False)\<rparr>]"
      "diagnostic (sample_closure (lit ''a'') Map.empty)
              (sample_error (lit ''missing-doctype'') 0)
              \<lparr>info.reason = lit ''Missing doctype before other content'',
               description = lit ''Expected a `<!doctype html>` before anything else'',
               info.url = Some (JBool False)\<rparr>"]
    url_field [of "sample_closure (lit ''</x/>'') Map.empty"
      "sample_error (lit ''end-tag-with-trailing-solidus'') 4"
      "[diagnostic (sample_closure (lit ''</x/>'') Map.empty)
              (sample_error (lit ''end-tag-with-trailing-solidus'') 4)
              \<lparr>info.reason = lit ''Unexpected slash at end of closing tag'',
               description = lit ''Unexpected `%c-1`. Expected `>` instead'',
               info.url = None\<rparr>]"
      "diagnostic (sample_closure (lit ''</x/>'') Map.empty)
              (sample_error (lit ''end-tag-with-trailing-solidus'') 4)
              \<lparr>info.reason = lit ''Unexpected slash at end of closing tag'',
               description = lit ''Unexpected `%c-1`. Expected `>` instead'',
               info.url = None\<rparr>"]
  by (simp add: onerror_def info_of_def url_diagnostic level_def setting_of_def config_of_def
      level_of_def sample_errors_def sample_closure_def sample_error_def
      lit_def toUpperCase_def upper_unit_def is_lower_def)

section \<open>A rule that the catalog does not have\<close>

lemma format_empty: "format dc st [] = []"
  by (simp add: format_def)



text \<open>
  C10. When the catalog has no entry for the rule of an event, every message that
  \<open>onerror\<close> hands to the sink for it has a \<open>url\<close> that is not \<open>null\<close>: the base
  prefix followed by the code of the event. With a severity of 1 or 2 and a key that
  is not the name of an inherited member the message is handed over, built from the
  fallback entry, whose \<open>url\<close> is the empty string and not \<open>false\<close>.
\<close>

theorem missing_entry_url:
  "errors cl (camelcase (code e)) = None \<Longrightarrow>
     (onerror cl e [] = Inr ms \<and> m \<in> set ms \<longrightarrow>
        message.url m = JStr (base @ code e) \<and> message.url m \<noteq> JNull)
     \<and> ((level cl e = Fin 1 \<or> level cl e = Fin 2)
          \<and> camelcase (code e) \<notin> set object_prototype_names \<longrightarrow>
        onerror cl e sink = Inr (sink @ [diagnostic cl e fallback])
        \<and> info.url fallback = Some (JStr [])
        \<and> message.reason (diagnostic cl e fallback) = []
        \<and> note' (diagnostic cl e fallback) = [])"
proof (intro conjI impI)
  assume none: "errors cl (camelcase (code e)) = None"
  assume "onerror cl e [] = Inr ms \<and> m \<in> set ms"
  then obtain i where i: "info_of (errors cl) (camelcase (code e)) = Info i"
    and m: "m = diagnostic cl e i"
    using emitted_message [of cl e ms m] by auto
  from i none have "i = fallback" by (simp add: info_of_Info)
  then show "message.url m = JStr (base @ code e)" and "message.url m \<noteq> JNull"
    unfolding m url_diagnostic by (simp_all add: fallback_def)
next
  assume none: "errors cl (camelcase (code e)) = None"
  assume h: "(level cl e = Fin 1 \<or> level cl e = Fin 2)
      \<and> camelcase (code e) \<notin> set object_prototype_names"
  then have "truthy_num (level cl e)" by auto
  with none h show "onerror cl e sink = Inr (sink @ [diagnostic cl e fallback])"
    by (simp add: onerror_def info_of_def)
  show "info.url fallback = Some (JStr [])" by (simp add: fallback_def)
  show "message.reason (diagnostic cl e fallback) = []"
    by (simp add: diagnostic_def Let_def fallback_def format_empty)
  show "note' (diagnostic cl e fallback) = []"
    by (simp add: diagnostic_def Let_def fallback_def format_empty)
qed

theorem missing_entry_url_witness:
  "errors (sample_closure (lit ''a'') Map.empty)
       (camelcase (code (sample_error (lit ''no-such-rule'') 0))) = None
   \<and> level (sample_closure (lit ''a'') Map.empty) (sample_error (lit ''no-such-rule'') 0) = Fin 1
   \<and> camelcase (code (sample_error (lit ''no-such-rule'') 0)) \<notin> set object_prototype_names
   \<and> onerror (sample_closure (lit ''a'') Map.empty) (sample_error (lit ''no-such-rule'') 0) []
       = Inr [diagnostic (sample_closure (lit ''a'') Map.empty)
                (sample_error (lit ''no-such-rule'') 0) fallback]
   \<and> message.url (diagnostic (sample_closure (lit ''a'') Map.empty)
        (sample_error (lit ''no-such-rule'') 0) fallback) = JStr (base @ lit ''no-such-rule'')"
  using missing_entry_url [of "sample_closure (lit ''a'') Map.empty"
      "sample_error (lit ''no-such-rule'') 0"
      "[diagnostic (sample_closure (lit ''a'') Map.empty)
                (sample_error (lit ''no-such-rule'') 0) fallback]"
      "diagnostic (sample_closure (lit ''a'') Map.empty)
                (sample_error (lit ''no-such-rule'') 0) fallback" "[]"]
  by (simp add: level_def setting_of_def config_of_def level_of_def sample_errors_def
      sample_closure_def sample_error_def object_prototype_names_def
      lit_def toUpperCase_def upper_unit_def is_lower_def)

section \<open>The identifier normalizer on hyphen-case codes\<close>

lemma lower_not_hyphen: "is_lower c \<Longrightarrow> c \<noteq> 0x2D"
  by (auto simp: is_lower_def)

lemma lower_not_upper: "is_lower c \<Longrightarrow> \<not> is_upper c"
  unfolding is_lower_def is_upper_def by unat_arith

lemma upper_of_lower: "is_lower c \<Longrightarrow> is_upper (upper_unit c)"
  unfolding is_lower_def is_upper_def upper_unit_def by simp unat_arith

lemma lower_upper_unit: "is_lower c \<Longrightarrow> lower_unit (upper_unit c) = c"
  using upper_of_lower [of c] by (simp add: lower_unit_def) (simp add: upper_unit_def)

lemma split_hyphen_nonempty: "split_hyphen s \<noteq> []"
  by (induction s) (auto split: list.split)

lemma camelcase_words: "tail_ok s \<Longrightarrow> camelcase s = camel_of_words (split_hyphen s)"
proof (induction s rule: camelcase.induct)
  case 1
  then show ?case by (simp add: camel_of_words_def)
next
  case (2 c)
  then show ?case by (auto simp: camel_of_words_def tail_ok_def)
next
  case (3 c d cs)
  obtain w ws where sp: "split_hyphen cs = w # ws"
    using split_hyphen_nonempty [of cs] by (cases "split_hyphen cs") auto
  show ?case
  proof (cases "c = 0x2D")
    case True
    with 3 sp have d: "is_lower d" "d \<noteq> 0x2D" and ok: "tail_ok cs"
      by (auto simp: tail_ok_def split: if_splits)
    with 3 True have "camelcase cs = camel_of_words (split_hyphen cs)" by simp
    with True d sp show ?thesis
      by (simp add: camel_of_words_def capitalize_def toUpperCase_def)
  next
    case False
    with 3 sp have ok: "tail_ok (d # cs)"
      by (auto simp: tail_ok_def split: if_splits list.splits)
    with 3 False have "camelcase (d # cs) = camel_of_words (split_hyphen (d # cs))" by simp
    with False sp show ?thesis
      by (auto simp: camel_of_words_def split: list.splits)
  qed
qed


lemma kebab_camelcase: "tail_ok s \<Longrightarrow> lower_words s \<Longrightarrow> kebab (camelcase s) = s"
proof (induction s rule: camelcase.induct)
  case 1
  then show ?case by simp
next
  case (2 c)
  then show ?case
    by (auto simp: tail_ok_def lower_words_def lower_not_upper split: if_splits)
next
  case (3 c d cs)
  obtain w ws where sp: "split_hyphen cs = w # ws"
    using split_hyphen_nonempty [of cs] by (cases "split_hyphen cs") auto
  show ?case
  proof (cases "c = 0x2D")
    case True
    with 3 sp have d: "is_lower d" "d \<noteq> 0x2D" and ok: "tail_ok cs" "lower_words cs"
      by (auto simp: tail_ok_def lower_words_def split: if_splits)
    with 3 True have "kebab (camelcase cs) = cs" by simp
    with True d show ?thesis
      by (simp add: toUpperCase_def toLowerCase_def upper_of_lower lower_upper_unit lit_def)
  next
    case False
    with 3 sp have ok: "tail_ok (d # cs)" "lower_words (d # cs)" and c: "is_lower c"
      by (auto simp: tail_ok_def lower_words_def split: if_splits list.splits)
    with 3 False have "kebab (camelcase (d # cs)) = d # cs" by simp
    with False c show ?thesis
      by (simp add: lower_not_upper)
  qed
qed

lemma hyphen_case_ok: "hyphen_case s \<Longrightarrow> tail_ok s \<and> lower_words s"
proof -
  assume h: "hyphen_case s"
  have "list_all (\<lambda>w. w \<noteq> [] \<and> is_lower (hd w)) (split_hyphen s)"
    using h unfolding hyphen_case_def list_all_iff
    by (metis list.set_sel(1))
  then have "tail_ok s"
    unfolding tail_ok_def list_all_iff by (metis list.set_sel(2) split_hyphen_nonempty)
  moreover have "lower_words s"
    using h unfolding hyphen_case_def lower_words_def list_all_iff by blast
  ultimately show ?thesis ..
qed

text \<open>
  C8. On a hyphen-case rule code \<open>camelcase\<close> returns the string with every hyphen
  removed and the character after it upper-cased; two hyphen-case codes with the
  same key are the same code; and \<open>end-tag-with-trailing-solidus\<close> becomes
  \<open>endTagWithTrailingSolidus\<close>.
\<close>

theorem camelcase_hyphen_case:
  "(hyphen_case s \<longrightarrow> camelcase s = camel_of_words (split_hyphen s))
   \<and> (hyphen_case s \<and> hyphen_case t \<and> camelcase s = camelcase t \<longrightarrow> s = t)
   \<and> camelcase (lit ''end-tag-with-trailing-solidus'') = lit ''endTagWithTrailingSolidus''"
proof (intro conjI impI)
  assume "hyphen_case s"
  then show "camelcase s = camel_of_words (split_hyphen s)"
    by (simp add: hyphen_case_ok camelcase_words)
next
  assume h: "hyphen_case s \<and> hyphen_case t \<and> camelcase s = camelcase t"
  then have hs: "hyphen_case s" and ht: "hyphen_case t" and eq: "camelcase s = camelcase t"
    by blast+
  have "kebab (camelcase s) = s"
    using hyphen_case_ok [OF hs] by (simp add: kebab_camelcase)
  moreover have "kebab (camelcase t) = t"
    using hyphen_case_ok [OF ht] by (simp add: kebab_camelcase)
  ultimately show "s = t" using eq by metis
next
  show "camelcase (lit ''end-tag-with-trailing-solidus'') = lit ''endTagWithTrailingSolidus''"
    by (simp add: lit_def toUpperCase_def upper_unit_def is_lower_def)
qed

theorem camelcase_hyphen_case_witness:
  "hyphen_case (lit ''missing-doctype'') \<and> hyphen_case (lit ''eof-in-tag'')
   \<and> camelcase (lit ''missing-doctype'') = lit ''missingDoctype''
   \<and> camelcase (lit ''missing-doctype'') \<noteq> camelcase (lit ''eof-in-tag'')"
  using camelcase_hyphen_case [of "lit ''missing-doctype''" "lit ''eof-in-tag''"]
  by (simp add: hyphen_case_def camel_of_words_def capitalize_def lit_def upper_unit_def is_lower_def)


section \<open>The template renderer on placeholders\<close>

lemma percent_class: "\<not> is_digit 0x25" "\<not> is_sign 0x25"
  by (simp_all add: is_digit_def is_sign_def)

lemma match_offset_percent:
  "match_offset (cs @ 0x25 # r) = (fst (match_offset cs), snd (match_offset cs) @ 0x25 # r)"
proof (cases cs)
  case Nil
  then show ?thesis by (cases r) (simp_all add: percent_class)
next
  case (Cons s ys)
  show ?thesis
  proof (cases ys)
    case Nil
    with Cons show ?thesis by (simp add: percent_class)
  next
    case (Cons x xs)
    with \<open>cs = s # ys\<close> show ?thesis
      using takeWhile_tail [of is_digit "0x25" "x # xs" r]
        dropWhile_append3 [of is_digit "0x25" "x # xs" r]
      by (simp add: percent_class del: takeWhile.simps dropWhile.simps)
  qed
qed

lemma replace_c_percent:
  "replace_c dc st (a @ 0x25 # r) = replace_c dc st a @ replace_c dc st (0x25 # r)"
proof (induction dc st a rule: replace_c.induct)
  case (1 dc st)
  then show ?case by simp
next
  case (2 dc st c)
  then show ?case by simp
next
  case (3 dc st c e cs)
  show ?case
  proof (cases "c = 0x25 \<and> e = 0x63")
    case True
    obtain g1 g2 rest where m: "match_offset cs = ((g1, g2), rest)"
      by (metis surj_pair)
    then have m': "match_offset (cs @ 0x25 # r) = ((g1, g2), rest @ 0x25 # r)"
      by (simp add: match_offset_percent)
    from 3(1) [OF True m [symmetric] refl] True m m' show ?thesis by simp
  next
    case False
    from 3(2) [OF False] False show ?thesis by auto
  qed
qed

lemma replace_x_percent:
  "replace_x dc st (a @ 0x25 # r) = replace_x dc st a @ replace_x dc st (0x25 # r)"
  by (induction dc st a rule: replace_x.induct) simp_all

lemma replace_c_plain:
  "\<not> sublist (lit ''%c'') t \<Longrightarrow> replace_c dc st t = t"
  by (induction dc st t rule: replace_c.induct) (auto simp: lit_def sublist_Cons_right)

lemma match_offset_none: "\<not> starts_offset b \<Longrightarrow> match_offset b = ((None, None), b)"
  by (cases b rule: starts_offset.cases) auto

lemma replace_c_no_offset:
  "\<not> starts_offset b \<Longrightarrow>
     replace_c dc st (0x25 # 0x63 # b) = escape (charAt dc st) @ replace_c dc st b"
  by (simp add: match_offset_none replace_char_def escape_def lit_def backtick_def)

lemma match_offset_run:
  assumes "is_sign s" "ds \<noteq> []" "list_all is_digit ds" "b = [] \<or> \<not> is_digit (hd b)"
  shows "match_offset (s # ds @ b) = ((Some s, Some ds), b)"
proof -
  from assms obtain e es where ds: "ds = e # es" by (cases ds) auto
  from assms have t: "takeWhile is_digit (ds @ b) = ds"
    by (cases b) (simp_all add: list_all_iff takeWhile_tail)
  from assms have dr: "dropWhile is_digit (ds @ b) = b"
    by (cases b) (simp_all add: list_all_iff dropWhile_append3)
  from assms ds have "is_digit e" by simp
  with assms ds t dr show ?thesis by (simp del: takeWhile.simps dropWhile.simps)
qed

lemma replace_c_offset:
  assumes "is_sign s" "ds \<noteq> []" "list_all is_digit ds" "b = [] \<or> \<not> is_digit (hd b)"
  shows "replace_c dc st (0x25 # 0x63 # s # ds @ b) =
           escape (charAt dc (st + signed s (parseInt10 ds))) @ replace_c dc st b"
  using assms match_offset_run [OF assms]
  by (simp add: replace_char_def escape_def lit_def backtick_def signed_def)




lemma hex_digit_all:
  "\<forall>d \<in> set [0..<16]. is_hex_upper (upper_unit (hex_digit d))
    \<and> hex_upper_value (upper_unit (hex_digit d)) = d
    \<and> (d \<noteq> 0 \<longrightarrow> upper_unit (hex_digit d) \<noteq> 0x30)"
  unfolding upt_conv_Cons_Cons
  by (simp add: upt_rec hex_digit_def lit_def upper_unit_def is_lower_def is_hex_upper_def
      is_digit_def hex_upper_value_def)

lemma hex_digit_upper:
  assumes "d < 16"
  shows "is_hex_upper (upper_unit (hex_digit d))
    \<and> hex_upper_value (upper_unit (hex_digit d)) = d
    \<and> (d \<noteq> 0 \<longrightarrow> upper_unit (hex_digit d) \<noteq> 0x30)"
  using hex_digit_all assms by (simp del: upt.simps)


lemma read_hex_snoc: "read_hex (xs @ [c]) = 16 * read_hex xs + hex_upper_value c"
  by (simp add: read_hex_def)

lemma digits16_nonempty: "digits16 n \<noteq> []"
  by (subst digits16.simps) simp

lemma digits16_upper:
  "list_all is_hex_upper (toUpperCase (digits16 n))
   \<and> read_hex (toUpperCase (digits16 n)) = n
   \<and> (n \<noteq> 0 \<longrightarrow> hd (toUpperCase (digits16 n)) \<noteq> 0x30)"
proof (induction n rule: digits16.induct)
  case (1 n)
  show ?case
  proof (cases "n < 16")
    case True
    then have "digits16 n = [hex_digit n]" by (subst digits16.simps) simp
    with hex_digit_upper [OF True] show ?thesis
      by (simp add: toUpperCase_def read_hex_def)
  next
    case False
    then have d: "digits16 n = digits16 (n div 16) @ [hex_digit (n mod 16)]"
      by (subst digits16.simps) simp
    have m: "n mod 16 < 16" by simp
    from False have z: "n div 16 \<noteq> 0" by simp
    have ih: "list_all is_hex_upper (toUpperCase (digits16 (n div 16)))"
      "read_hex (toUpperCase (digits16 (n div 16))) = n div 16"
      "hd (toUpperCase (digits16 (n div 16))) \<noteq> 0x30"
      using 1 [OF False] z by simp_all
    have ne: "toUpperCase (digits16 (n div 16)) \<noteq> []"
      by (simp add: toUpperCase_def digits16_nonempty)
    have u: "toUpperCase (digits16 n) =
        toUpperCase (digits16 (n div 16)) @ [upper_unit (hex_digit (n mod 16))]"
      by (simp add: d toUpperCase_def)
    show ?thesis
      unfolding u using ih ne hex_digit_upper [OF m]
      by (simp add: read_hex_snoc)
  qed
qed

lemma replace_c_x: "replace_c dc st (0x78 # b) = 0x78 # replace_c dc st b"
  by (cases b) simp_all

lemma replace_c_percent_x:
  "replace_c dc st (a @ 0x25 # 0x78 # b) = replace_c dc st a @ 0x25 # 0x78 # replace_c dc st b"
proof -
  have "replace_c dc st (0x25 # 0x78 # b) = 0x25 # replace_c dc st (0x78 # b)"
    by simp
  then show ?thesis
    by (simp only: replace_c_percent replace_c_x)
qed

lemma replace_x_percent_x:
  "replace_x dc st (u @ 0x25 # 0x78 # v) = replace_x dc st u @ replace_hex dc st @ replace_x dc st v"
proof -
  have "replace_x dc st (0x25 # 0x78 # v) = replace_hex dc st @ replace_x dc st v"
    by simp
  then show ?thesis
    by (simp only: replace_x_percent)
qed

lemma format_percent_x:
  "format dc st (a @ lit ''%x'' @ b) = format dc st a @ replace_hex dc st @ format dc st b"
proof -
  have l: "a @ lit ''%x'' @ b = a @ 0x25 # 0x78 # b"
    by (simp add: lit_def)
  show ?thesis
    unfolding format_def l replace_c_percent_x replace_x_percent_x ..
qed

lemmas render_simps = lit_def format_def replace_char_def replace_hex_def charAt_def
  charCodeAt_def toString16_def toUpperCase_def upper_unit_def is_lower_def is_digit_def
  is_sign_def digits16.simps hex_digit_def backtick_def parseInt10_def digit_value_def

lemma replace_x_plain:
  "\<not> sublist (lit ''%x'') t \<Longrightarrow> replace_x dc st t = t"
  by (induction dc st t rule: replace_x.induct) (auto simp: lit_def sublist_Cons_right)

lemma replace_x_percent_head:
  "v = [] \<or> hd v \<noteq> 0x78 \<Longrightarrow> replace_x dc st (0x25 # v) = 0x25 # replace_x dc st v"
  by (cases v) auto

lemma replace_x_append_plain_end:
  "u = [] \<or> last u \<noteq> 0x25 \<Longrightarrow>
     replace_x dc st (u @ v) = replace_x dc st u @ replace_x dc st v"
proof (induction dc st u rule: replace_x.induct)
  case (1 dc st)
  then show ?case by simp
next
  case (2 dc st c)
  then show ?case by (cases v) auto
next
  case (3 dc st c e cs)
  from 3(3) have tl: "cs = [] \<or> last cs \<noteq> 0x25" and tl': "last (e # cs) \<noteq> 0x25"
    by (auto split: if_splits)
  show ?case
  proof (cases "c = 0x25 \<and> e = 0x78")
    case True
    from 3(1) [OF True tl] True show ?thesis by simp
  next
    case False
    from tl' have "e # cs = [] \<or> last (e # cs) \<noteq> 0x25" by simp
    from 3(2) [OF False this] False show ?thesis by auto
  qed
qed

lemma replace_x_append:
  assumes "\<not> seam u v"
  shows "replace_x dc st (u @ v) = replace_x dc st u @ replace_x dc st v"
proof (cases "u = [] \<or> last u \<noteq> 0x25")
  case True
  then show ?thesis by (rule replace_x_append_plain_end)
next
  case False
  then have u: "u = butlast u @ [0x25]"
    by (metis append_butlast_last_id)
  from False assms have v: "v = [] \<or> hd v \<noteq> 0x78"
    by (auto simp: seam_def)
  have "replace_x dc st (butlast u @ 0x25 # v) =
      replace_x dc st (butlast u) @ 0x25 # replace_x dc st v"
    by (simp only: replace_x_percent replace_x_percent_head [OF v])
  moreover have "replace_x dc st (butlast u @ 0x25 # []) = replace_x dc st (butlast u) @ [0x25]"
    by (simp only: replace_x_percent replace_x.simps)
  ultimately have "replace_x dc st ((butlast u @ [0x25]) @ v) =
      replace_x dc st (butlast u @ [0x25]) @ replace_x dc st v"
    by simp
  with u show ?thesis by simp
qed

lemma replace_x_escape: "replace_x dc st (escape (charAt dc i)) = escape (charAt dc i)"
  by (simp add: escape_def charAt_def lit_def)

lemma format_plain:
  "\<not> sublist (lit ''%c'') t \<Longrightarrow> \<not> sublist (lit ''%x'') t \<Longrightarrow> format dc st t = t"
  by (simp add: format_def replace_c_plain replace_x_plain)

lemma format_around:
  assumes "\<not> seam (replace_c dc st a) (escape (charAt dc i) @ replace_c dc st b)"
    and "\<not> seam (escape (charAt dc i)) (replace_c dc st b)"
  shows "replace_x dc st (replace_c dc st a @ escape (charAt dc i) @ replace_c dc st b) =
    format dc st a @ escape (charAt dc i) @ format dc st b"
  unfolding format_def
  by (simp only: replace_x_append [OF assms(1)] replace_x_append [OF assms(2)] replace_x_escape)

lemma replace_c_at_no_offset:
  "\<not> starts_offset b \<Longrightarrow>
     replace_c dc st (a @ lit ''%c'' @ b) =
       replace_c dc st a @ escape (charAt dc st) @ replace_c dc st b"
proof -
  have l: "a @ lit ''%c'' @ b = a @ 0x25 # 0x63 # b"
    by (simp add: lit_def)
  assume "\<not> starts_offset b"
  then have "replace_c dc st (0x25 # 0x63 # b) = escape (charAt dc st) @ replace_c dc st b"
    by (rule replace_c_no_offset)
  then show ?thesis
    unfolding l by (simp only: replace_c_percent)
qed

lemma replace_c_at_offset:
  assumes "is_sign s" "ds \<noteq> []" "list_all is_digit ds" "b = [] \<or> \<not> is_digit (hd b)"
  shows "replace_c dc st (a @ lit ''%c'' @ s # ds @ b) =
      replace_c dc st a @ escape (charAt dc (st + signed s (parseInt10 ds)))
        @ replace_c dc st b"
proof -
  have l: "a @ lit ''%c'' @ s # ds @ b = a @ 0x25 # 0x63 # s # ds @ b"
    by (simp add: lit_def)
  have "replace_c dc st (0x25 # 0x63 # s # ds @ b) =
      escape (charAt dc (st + signed s (parseInt10 ds))) @ replace_c dc st b"
    using assms by (rule replace_c_offset)
  then show ?thesis
    unfolding l by (simp only: replace_c_percent)
qed

text \<open>
  C5, as stated: in the result of \<open>format\<close> a placeholder \<open>%c\<close> stands replaced by
  the selected character and the text around it is unchanged. The result of the first
  \<open>replace\<close> is searched for \<open>%x\<close> by the second: with the template \<open>%cx\<close> and a
  percent sign selected, the first gives \<open>%x\<close> and \<open>format\<close> returns \<open>0x25\<close>.
\<close>

theorem format_char_counterexample:
  "format (lit ''%'') 0 (lit ''%cx'') = lit ''0x25''
   \<and> format (lit ''%'') 0 (lit ''%cx'') \<noteq> escape (charAt (lit ''%'') 0) @ lit ''x''"
  by (simp add: render_simps escape_def)

text \<open>
  C5, amended. In the result of \<open>format\<close>: a text without \<open>%c\<close> and without \<open>%x\<close>
  is unchanged; a \<open>%c\<close> that no sign and digit follow is replaced by the character
  of the text at the start offset, and a \<open>%c\<close> followed by a sign and its whole run
  of digits by the character at the start offset plus the signed value of the run
  (the empty string outside the text, the three-token escape for a backtick), with
  what stands before and after it rendered on its own, unless the replacement
  makes a seam, a percent sign right before an \<open>x\<close> where it meets the rendered
  text before or after it. In every case the result is the second \<open>replace\<close>
  applied to the three parts put together, so that the \<open>%x\<close> of a seam is expanded.
\<close>

theorem format_char_placeholders:
  "(\<not> sublist (lit ''%c'') t \<and> \<not> sublist (lit ''%x'') t \<longrightarrow> format dc st t = t)
   \<and> (\<not> starts_offset b
        \<and> \<not> seam (replace_c dc st a) (escape (charAt dc st) @ replace_c dc st b)
        \<and> \<not> seam (escape (charAt dc st)) (replace_c dc st b) \<longrightarrow>
        format dc st (a @ lit ''%c'' @ b) =
          format dc st a @ escape (charAt dc st) @ format dc st b)
   \<and> (is_sign s \<and> ds \<noteq> [] \<and> list_all is_digit ds \<and> (b = [] \<or> \<not> is_digit (hd b))
        \<and> \<not> seam (replace_c dc st a)
            (escape (charAt dc (st + signed s (parseInt10 ds))) @ replace_c dc st b)
        \<and> \<not> seam (escape (charAt dc (st + signed s (parseInt10 ds)))) (replace_c dc st b) \<longrightarrow>
        format dc st (a @ lit ''%c'' @ s # ds @ b) =
          format dc st a @ escape (charAt dc (st + signed s (parseInt10 ds))) @ format dc st b)
   \<and> (\<not> starts_offset b \<longrightarrow>
        format dc st (a @ lit ''%c'' @ b) =
          replace_x dc st (replace_c dc st a @ escape (charAt dc st) @ replace_c dc st b))
   \<and> (is_sign s \<and> ds \<noteq> [] \<and> list_all is_digit ds \<and> (b = [] \<or> \<not> is_digit (hd b)) \<longrightarrow>
        format dc st (a @ lit ''%c'' @ s # ds @ b) =
          replace_x dc st (replace_c dc st a
            @ escape (charAt dc (st + signed s (parseInt10 ds))) @ replace_c dc st b))"
proof (intro conjI impI)
  assume "\<not> sublist (lit ''%c'') t \<and> \<not> sublist (lit ''%x'') t"
  then show "format dc st t = t" by (simp add: format_plain)
next
  assume h: "\<not> starts_offset b
      \<and> \<not> seam (replace_c dc st a) (escape (charAt dc st) @ replace_c dc st b)
      \<and> \<not> seam (escape (charAt dc st)) (replace_c dc st b)"
  then have "format dc st (a @ lit ''%c'' @ b) =
      replace_x dc st (replace_c dc st a @ escape (charAt dc st) @ replace_c dc st b)"
    by (simp add: format_def replace_c_at_no_offset)
  also from h have "\<dots> = format dc st a @ escape (charAt dc st) @ format dc st b"
    by (intro format_around) simp_all
  finally show "format dc st (a @ lit ''%c'' @ b) =
      format dc st a @ escape (charAt dc st) @ format dc st b" .
next
  assume h: "is_sign s \<and> ds \<noteq> [] \<and> list_all is_digit ds \<and> (b = [] \<or> \<not> is_digit (hd b))
      \<and> \<not> seam (replace_c dc st a)
          (escape (charAt dc (st + signed s (parseInt10 ds))) @ replace_c dc st b)
      \<and> \<not> seam (escape (charAt dc (st + signed s (parseInt10 ds)))) (replace_c dc st b)"
  then have "format dc st (a @ lit ''%c'' @ s # ds @ b) =
      replace_x dc st (replace_c dc st a
        @ escape (charAt dc (st + signed s (parseInt10 ds))) @ replace_c dc st b)"
    by (simp add: format_def replace_c_at_offset)
  also from h have "\<dots> =
      format dc st a @ escape (charAt dc (st + signed s (parseInt10 ds))) @ format dc st b"
    by (intro format_around) simp_all
  finally show "format dc st (a @ lit ''%c'' @ s # ds @ b) =
      format dc st a @ escape (charAt dc (st + signed s (parseInt10 ds))) @ format dc st b" .
next
  assume "\<not> starts_offset b"
  then show "format dc st (a @ lit ''%c'' @ b) =
      replace_x dc st (replace_c dc st a @ escape (charAt dc st) @ replace_c dc st b)"
    by (simp add: format_def replace_c_at_no_offset)
next
  assume "is_sign s \<and> ds \<noteq> [] \<and> list_all is_digit ds \<and> (b = [] \<or> \<not> is_digit (hd b))"
  then show "format dc st (a @ lit ''%c'' @ s # ds @ b) =
      replace_x dc st (replace_c dc st a
        @ escape (charAt dc (st + signed s (parseInt10 ds))) @ replace_c dc st b)"
    by (simp add: format_def replace_c_at_offset)
qed

theorem format_char_placeholders_witness:
  "\<not> sublist (lit ''%c'') (lit ''Unexpected slash'')
   \<and> \<not> sublist (lit ''%x'') (lit ''Unexpected slash'')
   \<and> format (lit ''</x/>'') 4 (lit ''Unexpected slash'') = lit ''Unexpected slash''
   \<and> \<not> starts_offset (lit ''`. Expected'')
   \<and> \<not> seam (replace_c (lit ''<`>'') 1 (lit ''Unexpected `''))
         (escape (charAt (lit ''<`>'') 1) @ replace_c (lit ''<`>'') 1 (lit ''`. Expected''))
   \<and> \<not> seam (escape (charAt (lit ''<`>'') 1)) (replace_c (lit ''<`>'') 1 (lit ''`. Expected''))
   \<and> format (lit ''<`>'') 1 (lit ''Unexpected `'' @ lit ''%c'' @ lit ''`. Expected'')
       = lit ''Unexpected `` ` ``. Expected''
   \<and> is_sign 0x2D \<and> lit ''1'' \<noteq> [] \<and> list_all is_digit (lit ''1'')
   \<and> \<not> is_digit (hd (lit ''`. Expected''))
   \<and> format (lit ''</x/>'') 4 (lit ''Unexpected `'' @ lit ''%c'' @ 0x2D # lit ''1'' @ lit ''`. Expected'')
       = lit ''Unexpected `/`. Expected''"
  using format_char_placeholders [of "lit ''Unexpected slash''" "lit ''</x/>''" 4
      "lit ''`. Expected''" "lit ''Unexpected `''" "0x2D" "lit ''1''"]
    format_char_placeholders [of "lit ''Unexpected slash''" "lit ''<`>''" 1
      "lit ''`. Expected''" "lit ''Unexpected `''" "0x2D" "lit ''1''"]
  by (simp add: render_simps escape_def signed_def seam_def sublist_Cons_right)

text \<open>
  C6. With the start offset inside the text, \<open>format\<close> replaces a \<open>%x\<close> of the
  template by \<open>0x\<close> and the upper-cased \<open>toString(16)\<close> of the code unit at the start
  offset, whatever stands before and after it; that numeral is made of the digits
  \<open>0\<close> to \<open>9\<close> and \<open>A\<close> to \<open>F\<close>, denotes the code unit and has no leading zero; NUL
  gives \<open>0x0\<close> and the lone surrogate U+D800 gives \<open>0xD800\<close>. With the start offset
  outside the text there is no character to name, and the replacement is \<open>0xNAN\<close>.
\<close>

theorem format_hex:
  "(0 \<le> st \<and> st < int (length dc) \<longrightarrow>
      format dc st (a @ lit ''%x'' @ b) =
        format dc st a @ lit ''0x'' @ toUpperCase (digits16 (unat (dc ! nat st))) @ format dc st b)
   \<and> (st < 0 \<or> int (length dc) \<le> st \<longrightarrow>
      format dc st (a @ lit ''%x'' @ b) = format dc st a @ lit ''0xNAN'' @ format dc st b)
   \<and> list_all is_hex_upper (toUpperCase (digits16 n))
   \<and> read_hex (toUpperCase (digits16 n)) = n
   \<and> (n \<noteq> 0 \<longrightarrow> hd (toUpperCase (digits16 n)) \<noteq> 0x30)
   \<and> format [0] 0 (lit ''%x'') = lit ''0x0''
   \<and> format [0xD800] 0 (lit ''%x'') = lit ''0xD800''"
proof -
  have "format dc st (a @ lit ''%x'' @ b) =
        format dc st a @ lit ''0x'' @ toUpperCase (digits16 (unat (dc ! nat st))) @ format dc st b"
    if "0 \<le> st \<and> st < int (length dc)"
    using that by (simp add: format_percent_x replace_hex_def charCodeAt_def toString16_def)
  moreover have "format dc st (a @ lit ''%x'' @ b) =
        format dc st a @ lit ''0xNAN'' @ format dc st b"
    if "st < 0 \<or> int (length dc) \<le> st"
  proof -
    have "replace_hex dc st = lit ''0xNAN''"
      using that
      by (auto simp: replace_hex_def charCodeAt_def toString16_def toUpperCase_def lit_def
          upper_unit_def is_lower_def)
    then show ?thesis by (simp only: format_percent_x)
  qed
  moreover have "format [0] 0 (lit ''%x'') = lit ''0x0''"
    by (simp add: render_simps)
  moreover have "format [0xD800] 0 (lit ''%x'') = lit ''0xD800''"
    by (simp add: render_simps)
  ultimately show ?thesis
    using digits16_upper [of n] by blast
qed

theorem format_hex_witness:
  "(0::int) \<le> 16 \<and> (16::int) < int (length (lit ''<!doctype html> '' @ [0xD800]))
   \<and> format (lit ''<!doctype html> '' @ [0xD800]) 16
        (lit ''Unexpected code point `'' @ lit ''%x'' @ lit ''`. Do not use lone surrogate characters in HTML'')
      = lit ''Unexpected code point `'' @ lit ''0xD800'' @ lit ''`. Do not use lone surrogate characters in HTML''
   \<and> int (length (lit ''<a'')) \<le> 2
   \<and> format (lit ''<a'') 2 (lit ''code point `'' @ lit ''%x'' @ lit ''`'')
      = lit ''code point `0xNAN`''
   \<and> read_hex (toUpperCase (digits16 55296)) = 55296"
  using format_hex [of 2 "lit ''<a''" "lit ''code point `''" "lit ''`''" 55296]
    format_hex [of 16 "lit ''<!doctype html> '' @ [0xD800]" "lit ''Unexpected code point `''"
      "lit ''`. Do not use lone surrogate characters in HTML''" 55296]
  by (simp add: render_simps)

end
